theory Spec2Isabelle
  imports Main "HOL-Library.AList" "HOL-Library.Char_ord" "HOL-Library.List_Lexorder"
begin

section \<open>EarthSim annotators: a shallow embedding of \<^verbatim>\<open>earthsim/annotators.py\<close>\<close>

text \<open>
  The module wires HoloViews/GeoViews elements, streams and tables together. What it
  computes itself is modelled here function by function: the geometry adapter
  \<^verbatim>\<open>poly_to_geopandas\<close>, the pretty-printer \<^verbatim>\<open>GeoAnnotator.pprint\<close>, the group
  bookkeeping of \<^verbatim>\<open>PointWidgetAnnotator\<close> and the constructors of
  \<^verbatim>\<open>PolyAnnotator\<close> and \<^verbatim>\<open>PointAnnotator\<close>. Rendering, streams, links and plot
  options have no effect on the data and are left out.

  A Python \<^verbatim>\<open>dict\<close> is an association list in insertion order: \<open>map_of\<close> reads a
  key, \<open>AList.update\<close> is \<^verbatim>\<open>d[k] = v\<close> (an existing key keeps its place, a new
  key goes to the end), \<open>AList.delete\<close> removes a key. Python exceptions are values.
\<close>

datatype py_error = KeyError | IndexError | ValueError

subsection \<open>\<^verbatim>\<open>poly_to_geopandas\<close>: the geometry adapter\<close>

text \<open>
  A cell of the geometry table is a string or a geometry; \<open>None\<close> stands for a value the
  row dict does not have.
\<close>

datatype 'geo cell = Str string | Geom 'geo

record 'geo GeoDataFrame =
  gdf_columns :: "string list"
  gdf_data :: "'geo cell option list list"

text \<open>
  Modelled from the spec: \<^verbatim>\<open>gpd.GeoDataFrame(rows, columns=...)\<close> is the geometry-table
  constructor of GeoPandas, which the module calls and does not define. It gives a
  row-oriented table with the listed columns, one row per record, each cell read from the
  record under the column's name. A geometry table has one geometry column: the
  constructor raises when the column list names \<^verbatim>\<open>geometry\<close> more than once (which
  exception it is depends on the version of the library; \<open>ValueError\<close> stands for it).
\<close>

definition GeoDataFrame_of ::
  "(string \<times> 'geo cell) list list \<Rightarrow> string list \<Rightarrow> py_error + 'geo GeoDataFrame" where
  "GeoDataFrame_of rows columns =
     (if 1 < count_list columns ''geometry'' then Inl ValueError
      else Inr \<lparr>gdf_columns = columns, gdf_data = map (\<lambda>r. map (map_of r) columns) rows\<rparr>)"

text \<open>
  \<^verbatim>\<open>dict({c: '' for c in columns}, geometry=g)\<close>: the keyword overrides a column of
  that name.
\<close>

definition row_dict :: "string list \<Rightarrow> 'geo \<Rightarrow> (string \<times> 'geo cell) list" where
  "row_dict columns g =
     AList.update ''geometry'' (Geom g) (fold (\<lambda>c d. AList.update c (Str '''') d) columns [])"

text \<open>
  \<^verbatim>\<open>for g in polys.geom(): rows.append(...)\<close>, with \<open>polys\<close> the sequence of geometries
  that \<^verbatim>\<open>polys.geom()\<close> yields.
\<close>

fun rows_loop :: "'geo list \<Rightarrow> string list \<Rightarrow> (string \<times> 'geo cell) list list \<Rightarrow> (string \<times> 'geo cell) list list" where
  "rows_loop [] columns rows = rows"
| "rows_loop (g # gs) columns rows = rows_loop gs columns (rows @ [row_dict columns g])"

definition poly_to_geopandas :: "'geo list \<Rightarrow> string list \<Rightarrow> py_error + 'geo GeoDataFrame" where
  "poly_to_geopandas polys columns =
     GeoDataFrame_of (rows_loop polys columns []) (columns @ [''geometry''])"

subsection \<open>\<^verbatim>\<open>GeoAnnotator.pprint\<close>\<close>

text \<open>
  \<^verbatim>\<open>get_param_values()\<close> of the \<^verbatim>\<open>param\<close> library gives the (name, value) pairs of the
  parameters; \<open>str\<close> is Python's \<^verbatim>\<open>str\<close> on a value, which \<^verbatim>\<open>%s\<close> applies. The
  \<^verbatim>\<open>name\<close> parameter is a string, so \<^verbatim>\<open>len(name)\<close> is the length of its \<^verbatim>\<open>str\<close>.
  \<^verbatim>\<open>params.pop('name')\<close> raises KeyError without that key. \<^verbatim>\<open>sorted(params.items())\<close>
  compares the keys first, and the keys of a dict differ, so it sorts by key; Python
  orders strings by code point, as the lexicographic order on \<open>string\<close> does. The result
  is the string handed to \<^verbatim>\<open>print\<close>.
\<close>

definition newline :: string where
  "newline = [CHR 0x0A]"

definition param_line :: "('v \<Rightarrow> string) \<Rightarrow> string \<times> 'v \<Rightarrow> string" where
  "param_line str item = ''  '' @ fst item @ '': '' @ str (snd item) @ newline"

definition pprint :: "('v \<Rightarrow> string) \<Rightarrow> (string \<times> 'v) list \<Rightarrow> py_error + string" where
  "pprint str param_values =
     (let params = fold (\<lambda>kv d. AList.update (fst kv) (snd kv) d) param_values []
      in case map_of params ''name'' of
           None \<Rightarrow> Inl KeyError
         | Some name \<Rightarrow>
             (let params' = AList.delete ''name'' params;
                  string = str name @ newline @ replicate (length (str name)) (CHR ''-'')
                             @ newline @ newline
              in Inr (fold (\<lambda>item s. s @ param_line str item) (sort_key fst params') string)))"

subsection \<open>\<^verbatim>\<open>PointWidgetAnnotator\<close>: groups of point indices\<close>

text \<open>
  The fields the group bookkeeping reads and writes: the active group (the
  \<^verbatim>\<open>group\<close> parameter), the index list of the selection stream
  (\<^verbatim>\<open>point_sel_stream.index\<close>) and the dict \<^verbatim>\<open>_group_data\<close>.
\<close>

record 'g PointWidgetAnnotator =
  group :: 'g
  point_sel_index :: "int list"
  group_data :: "('g \<times> int list) list"

text \<open>
  \<^verbatim>\<open>__init__(self, groups)\<close>: \<^verbatim>\<open>groups[0]\<close> becomes the default of the
  \<^verbatim>\<open>group\<close> parameter and raises IndexError on an empty list;
  \<^verbatim>\<open>_group_data = {g: [] for g in groups}\<close>. A new \<^verbatim>\<open>Selection1D\<close> stream has the
  empty index list.
\<close>

definition init_group_data :: "'g list \<Rightarrow> ('g \<times> int list) list" where
  "init_group_data groups = fold (\<lambda>g d. AList.update g [] d) groups []"

definition PointWidgetAnnotator_init :: "'g list \<Rightarrow> py_error + 'g PointWidgetAnnotator" where
  "PointWidgetAnnotator_init groups =
     (case groups of
        [] \<Rightarrow> Inl IndexError
      | g0 # _ \<Rightarrow> Inr \<lparr>group = g0, point_sel_index = [], group_data = init_group_data groups\<rparr>)"

text \<open>
  The inner loop of \<^verbatim>\<open>add_group\<close>:
  \<^verbatim>\<open>for g, inds in self._group_data.items():
      if g != self.group:
          self._group_data[g] = [idx for idx in inds if idx not in new_index]\<close>
  The first argument is the item sequence still to visit, the last the dict being
  written. Only the value of the visited key is replaced, so the value read when an item
  is reached is the one the dict held when the loop began.
\<close>

fun remove_from_others ::
  "('g \<times> int list) list \<Rightarrow> 'g \<Rightarrow> int list \<Rightarrow> ('g \<times> int list) list \<Rightarrow> ('g \<times> int list) list" where
  "remove_from_others [] grp new_index d = d"
| "remove_from_others ((g, inds) # items) grp new_index d =
     remove_from_others items grp new_index
       (if g \<noteq> grp then AList.update g (filter (\<lambda>idx. idx \<notin> set new_index) inds) d else d)"

text \<open>
  The outer loop \<^verbatim>\<open>for idx in new_index\<close>. \<^verbatim>\<open>self._group_data[self.group]\<close> raises
  KeyError when the active group is not a key; the loop then stops with the dict as it was
  mutated so far, which is returned beside the exception.
\<close>

fun add_group_loop ::
  "int list \<Rightarrow> 'g \<Rightarrow> int list \<Rightarrow> ('g \<times> int list) list \<Rightarrow> ('g \<times> int list) list \<times> py_error option" where
  "add_group_loop [] grp new_index d = (d, None)"
| "add_group_loop (idx # rest) grp new_index d =
     (case map_of d grp of
        None \<Rightarrow> (d, Some KeyError)
      | Some members \<Rightarrow>
          (let d1 = (if idx \<notin> set members then AList.update grp (members @ [idx]) d else d)
           in add_group_loop rest grp new_index (remove_from_others d1 grp new_index d1)))"

text \<open>
  \<^verbatim>\<open>add_group(self)\<close>: the annotator after the call, and the exception if one was
  raised. Triggering the table stream only asks the views to redraw.
\<close>

definition add_group :: "'g PointWidgetAnnotator \<Rightarrow> 'g PointWidgetAnnotator \<times> py_error option" where
  "add_group self =
     (let new_index = point_sel_index self;
          r = add_group_loop new_index (group self) new_index (group_data self)
      in (self\<lparr>group_data := fst r\<rparr>, snd r))"

text \<open>
  A user action: the selection stream and the group selector hold some values, then the
  add button calls \<^verbatim>\<open>add_group\<close>. An exception goes to the caller of the callback;
  the annotator stays as the call left it.
\<close>

definition add_action :: "'g PointWidgetAnnotator \<Rightarrow> int list \<times> 'g \<Rightarrow> 'g PointWidgetAnnotator" where
  "add_action self a = fst (add_group (self\<lparr>point_sel_index := fst a, group := snd a\<rparr>))"

definition run_actions :: "'g PointWidgetAnnotator \<Rightarrow> (int list \<times> 'g) list \<Rightarrow> 'g PointWidgetAnnotator" where
  "run_actions self acts = foldl add_action self acts"

text \<open>The membership list of a group, if the group is a key.\<close>

definition members_of :: "('g \<times> int list) list \<Rightarrow> 'g \<Rightarrow> int list option" where
  "members_of d g = map_of d g"

text \<open>
  The invariant of \<^verbatim>\<open>_group_data\<close>: the keys are distinct (it is a dict), no
  membership list repeats an index, and the lists of two different groups share none.
\<close>

definition exclusive :: "('g \<times> int list) list \<Rightarrow> bool" where
  "exclusive d \<longleftrightarrow>
     distinct (map fst d) \<and>
     (\<forall>g l. map_of d g = Some l \<longrightarrow> distinct l) \<and>
     (\<forall>g g' l l'. g \<noteq> g' \<and> map_of d g = Some l \<and> map_of d g' = Some l' \<longrightarrow> set l \<inter> set l' = {})"

subsection \<open>Elements of the plotting library\<close>

text \<open>
  A HoloViews element as far as the constructors use it: the names of its key and value
  dimensions and its data. A row is a dict from dimension name to value. The data of a
  \<^verbatim>\<open>Points\<close> element or a \<^verbatim>\<open>Table\<close> is a list of rows; the data of a \<^verbatim>\<open>Path\<close> or
  \<^verbatim>\<open>Polygons\<close> element is one list of rows (the vertices) per shape.
\<close>

datatype val = NoneV | StrV string | IntV int

type_synonym row = "(string \<times> val) list"

record 'd element =
  kdims :: "string list"
  vdims :: "string list"
  data :: 'd

text \<open>\<^verbatim>\<open>col in element\<close>: the name is one of the element's dimensions.\<close>

definition contains :: "'d element \<Rightarrow> string \<Rightarrow> bool" where
  "contains e dimension \<longleftrightarrow> dimension \<in> set (kdims e @ vdims e)"

text \<open>\<^verbatim>\<open>list.insert(pos, x)\<close> for a position that is not negative.\<close>

definition insert_at :: "nat \<Rightarrow> 'a \<Rightarrow> 'a list \<Rightarrow> 'a list" where
  "insert_at pos x xs = take pos xs @ x # drop pos xs"

text \<open>The value of a dimension in a row; a row without the key has no value there.\<close>

definition row_value :: "row \<Rightarrow> string \<Rightarrow> val" where
  "row_value r dimension = (case map_of r dimension of Some v \<Rightarrow> v | None \<Rightarrow> NoneV)"


definition add_value :: "string \<Rightarrow> val \<Rightarrow> row \<Rightarrow> row" where
  "add_value dimension dim_val r =
     (case map_of r dimension of
        None \<Rightarrow> AList.update dimension dim_val r
      | Some v \<Rightarrow> r)"

definition add_dimension_paths ::
  "string \<Rightarrow> nat \<Rightarrow> val \<Rightarrow> bool \<Rightarrow> row list list element \<Rightarrow> row list list element" where
  "add_dimension_paths dimension dim_pos dim_val vdim e =
     (if vdim
      then e\<lparr>vdims := insert_at dim_pos dimension (vdims e),
             data := map (map (add_value dimension dim_val)) (data e)\<rparr>
      else e\<lparr>kdims := insert_at dim_pos dimension (kdims e),
             data := map (map (add_value dimension dim_val)) (data e)\<rparr>)"


text \<open>The distinct values of a list, each at the place of its first occurrence.\<close>

definition unique_array :: "'a list \<Rightarrow> 'a list" where
  "unique_array xs = rev (remdups (rev xs))"

text \<open>
  Modelled from the spec: \<^verbatim>\<open>polys.dimension_values(c, expanded=False)\<close> is a method of
  the plotting library; it extracts, for the column, the distinct values of each shape in
  the order of their first occurrence, one shape after the other (one value for a shape on
  which the column is constant, none for a shape without vertices).
\<close>

definition dimension_values_unexpanded :: "row list list element \<Rightarrow> string \<Rightarrow> val list" where
  "dimension_values_unexpanded e dimension =
     concat (map (\<lambda>shape. unique_array (map (\<lambda>r. row_value r dimension) shape)) (data e))"

subsection \<open>\<^verbatim>\<open>PolyAnnotator.__init__\<close>\<close>

text \<open>
  The constructor from line 198 on, with \<open>polys0\<close> the \<^verbatim>\<open>self.polys\<close> that
  \<^verbatim>\<open>GeoAnnotator.__init__\<close> built. The result holds the polygons with the annotation
  columns, the dict behind \<^verbatim>\<open>poly_table\<close> and the empty \<^verbatim>\<open>vertex_table\<close>. Pushing
  the projected vertices into the draw stream changes none of them.
\<close>

record PolyAnnotator =
  polys :: "row list list element"
  poly_table :: "(string \<times> val list) list"
  vertex_table :: "row list element"

text \<open>
  \<^verbatim>\<open>for col in self.poly_columns:
      if col not in self.polys:
          self.polys = self.polys.add_dimension(col, 0, '', True)\<close>
\<close>

definition add_poly_columns :: "string list \<Rightarrow> row list list element \<Rightarrow> row list list element" where
  "add_poly_columns poly_columns polys0 =
     fold (\<lambda>col p. if \<not> contains p col then add_dimension_paths col 0 (StrV '''') True p else p)
       poly_columns polys0"

text \<open>
  \<^verbatim>\<open>poly_data = {c: self.polys.dimension_values(c, expanded=False) for c in self.poly_columns}
  if len(set(len(v) for v in poly_data.values())) != 1: raise ValueError(...)\<close>
\<close>

definition PolyAnnotator_init ::
  "string list \<Rightarrow> string list \<Rightarrow> row list list element \<Rightarrow> py_error + PolyAnnotator" where
  "PolyAnnotator_init poly_columns vertex_columns polys0 =
     (let p = add_poly_columns poly_columns polys0;
          poly_data = fold (\<lambda>c d. AList.update c (dimension_values_unexpanded p c) d) poly_columns []
      in if length (remdups (map (\<lambda>item. length (snd item)) poly_data)) \<noteq> 1
         then Inl ValueError
         else Inr \<lparr>polys = p, poly_table = poly_data,
                   vertex_table = \<lparr>kdims = kdims p, vdims = vertex_columns, data = []\<rparr>\<rparr>)"

text \<open>
  The condition the specification names: a column has more than one distinct value among
  the vertices of a shape, for some configured column and some shape.
\<close>

definition varies_within :: "string \<Rightarrow> row list \<Rightarrow> bool" where
  "varies_within c shape \<longleftrightarrow> 1 < length (unique_array (map (\<lambda>r. row_value r c) shape))"

definition some_column_varies :: "string list \<Rightarrow> row list list element \<Rightarrow> bool" where
  "some_column_varies poly_columns p \<longleftrightarrow>
     list_ex (\<lambda>c. list_ex (varies_within c) (data p)) poly_columns"

subsection \<open>\<^verbatim>\<open>PointAnnotator.__init__\<close>\<close>






section \<open>Properties\<close>

subsection \<open>Group bookkeeping\<close>

lemma update_keys_present:
  "k \<in> fst ` set d \<Longrightarrow> map fst (AList.update k v d) = map fst d"
  by (simp add: update_keys)

lemma remove_from_others_keys:
  "fst ` set items \<subseteq> fst ` set d \<Longrightarrow> map fst (remove_from_others items grp new_index d) = map fst d"
proof (induction items grp new_index d rule: remove_from_others.induct)
  case (1 grp new_index d)
  then show ?case by simp
next
  case (2 g inds items grp new_index d)
  let ?d = "if g \<noteq> grp then AList.update g (filter (\<lambda>idx. idx \<notin> set new_index) inds) d else d"
  from 2(2) have g: "g \<in> fst ` set d" by auto
  then have k: "map fst ?d = map fst d" by (simp add: update_keys_present)
  then have "fst ` set ?d = fst ` set d" by (metis set_map)
  with 2(2) have "fst ` set items \<subseteq> fst ` set ?d" by auto
  from 2(1)[OF this] k show ?case by simp
qed

lemma remove_from_others_map_of:
  "distinct (map fst items) \<Longrightarrow>
   map_of (remove_from_others items grp new_index d) g =
     (if g \<noteq> grp \<and> g \<in> fst ` set items
      then map_option (filter (\<lambda>idx. idx \<notin> set new_index)) (map_of items g)
      else map_of d g)"
proof (induction items grp new_index d rule: remove_from_others.induct)
  case (1 grp new_index d)
  then show ?case by simp
next
  case (2 g' inds items grp new_index d)
  from 2(2) have dist: "distinct (map fst items)" and notin: "g' \<notin> fst ` set items" by auto
  show ?case
    using 2(1)[OF dist] notin by (auto simp: update_conv')
qed

lemma remove_from_others_self:
  assumes "distinct (map fst d)"
  shows "map_of (remove_from_others d grp new_index d) g =
     (if g \<noteq> grp then map_option (filter (\<lambda>idx. idx \<notin> set new_index)) (map_of d g) else map_of d g)"
proof (cases "g \<in> fst ` set d")
  case True
  then show ?thesis by (simp add: remove_from_others_map_of[OF assms])
next
  case False
  then have "map_of d g = None" by (simp add: map_of_eq_None_iff)
  with False show ?thesis by (auto simp: remove_from_others_map_of[OF assms])
qed

lemma map_of_Some_key: "map_of d k = Some v \<Longrightarrow> k \<in> fst ` set d"
  by (metis domI dom_map_of_conv_image_fst)

lemma append_step_map_of:
  assumes "map_of d grp = Some members"
  shows "map_of (if idx \<notin> set members then AList.update grp (members @ [idx]) d else d) =
         (map_of d)(grp \<mapsto> (if idx \<notin> set members then members @ [idx] else members))"
  using assms by (auto simp: update_conv')

lemma append_step_keys:
  assumes "map_of d grp = Some members"
  shows "map fst (if idx \<notin> set members then AList.update grp (members @ [idx]) d else d) = map fst d"
  using map_of_Some_key[OF assms] by (simp add: update_keys_present)

lemma iteration_keys:
  fixes idx :: int
  assumes "map_of d grp = Some members"
  defines "d1 \<equiv> (if idx \<notin> set members then AList.update grp (members @ [idx]) d else d)"
  shows "map fst (remove_from_others d1 grp new_index d1) = map fst d"
proof -
  have "map fst (remove_from_others d1 grp new_index d1) = map fst d1"
    by (rule remove_from_others_keys) simp
  also have "map fst d1 = map fst d"
    unfolding d1_def by (rule append_step_keys[OF assms(1)])
  finally show ?thesis .
qed

lemma iteration_map_of:
  fixes idx :: int
  assumes "distinct (map fst d)" and "map_of d grp = Some members"
  defines "d1 \<equiv> (if idx \<notin> set members then AList.update grp (members @ [idx]) d else d)"
  shows "map_of (remove_from_others d1 grp new_index d1) g =
     (if g = grp then Some (if idx \<notin> set members then members @ [idx] else members)
      else map_option (filter (\<lambda>i. i \<notin> set new_index)) (map_of d g))"
proof -
  have k: "map fst d1 = map fst d"
    unfolding d1_def by (rule append_step_keys[OF assms(2)])
  with assms(1) have dist: "distinct (map fst d1)" by simp
  have m: "map_of d1 = (map_of d)(grp \<mapsto> (if idx \<notin> set members then members @ [idx] else members))"
    unfolding d1_def by (rule append_step_map_of[OF assms(2)])
  show ?thesis
    by (simp add: remove_from_others_self[OF dist] m)
qed

lemma add_group_loop_keys:
  "map fst (fst (add_group_loop rest grp new_index d)) = map fst d"
proof (induction rest arbitrary: d)
  case Nil
  then show ?case by simp
next
  case (Cons idx rest)
  show ?case
  proof (cases "map_of d grp")
    case None
    then show ?thesis by simp
  next
    case (Some members)
    then show ?thesis
      using Cons.IH iteration_keys[OF Some, of idx new_index]
      by (simp add: Let_def)
  qed
qed

lemma add_group_loop_effect:
  assumes "distinct (map fst d)" and "map_of d grp = Some members"
  shows "\<exists>l. map_of (fst (add_group_loop rest grp new_index d)) grp = Some l \<and>
             set l = set members \<union> set rest \<and>
             snd (add_group_loop rest grp new_index d) = None \<and>
             (\<forall>g. g \<noteq> grp \<longrightarrow>
                  map_of (fst (add_group_loop rest grp new_index d)) g =
                    (if rest = [] then map_of d g
                     else map_option (filter (\<lambda>i. i \<notin> set new_index)) (map_of d g)))"
  using assms
proof (induction rest arbitrary: d members)
  case Nil
  then show ?case by simp
next
  case (Cons idx rest)
  let ?m = "if idx \<notin> set members then members @ [idx] else members"
  let ?d1 = "if idx \<notin> set members then AList.update grp (members @ [idx]) d else d"
  let ?d2 = "remove_from_others ?d1 grp new_index ?d1"
  have k: "map fst ?d2 = map fst d"
    by (rule iteration_keys[OF Cons.prems(2)])
  with Cons.prems(1) have dist: "distinct (map fst ?d2)" by simp
  have grp: "map_of ?d2 grp = Some ?m"
    by (simp add: iteration_map_of[OF Cons.prems])
  have others: "g \<noteq> grp \<Longrightarrow>
      map_of ?d2 g = map_option (filter (\<lambda>i. i \<notin> set new_index)) (map_of d g)" for g
    by (simp add: iteration_map_of[OF Cons.prems])
  have unf: "add_group_loop (idx # rest) grp new_index d = add_group_loop rest grp new_index ?d2"
    using Cons.prems(2) by (simp add: Let_def)
  from Cons.IH[OF dist grp] obtain l where
    l: "map_of (fst (add_group_loop rest grp new_index ?d2)) grp = Some l"
       "set l = set ?m \<union> set rest"
       "snd (add_group_loop rest grp new_index ?d2) = None"
       "\<forall>g. g \<noteq> grp \<longrightarrow>
          map_of (fst (add_group_loop rest grp new_index ?d2)) g =
            (if rest = [] then map_of ?d2 g
             else map_option (filter (\<lambda>i. i \<notin> set new_index)) (map_of ?d2 g))"
    by blast
  have "set l = set members \<union> set (idx # rest)" using l(2) by auto
  moreover have "\<forall>g. g \<noteq> grp \<longrightarrow>
      map_of (fst (add_group_loop rest grp new_index ?d2)) g =
        map_option (filter (\<lambda>i. i \<notin> set new_index)) (map_of d g)"
    using l(4) others by (auto simp: option.map_comp comp_def)
  ultimately show ?case
    unfolding unf using l(1) l(3) by simp
qed

lemma iteration_exclusive:
  fixes idx :: int
  assumes ex: "exclusive d" and grp: "map_of d grp = Some members" and idx: "idx \<in> set new_index"
  defines "d1 \<equiv> (if idx \<notin> set members then AList.update grp (members @ [idx]) d else d)"
  shows "exclusive (remove_from_others d1 grp new_index d1)"
proof -
  let ?d2 = "remove_from_others d1 grp new_index d1"
  let ?m = "if idx \<notin> set members then members @ [idx] else members"
  from ex have dist: "distinct (map fst d)"
    and dl: "\<And>g l. map_of d g = Some l \<Longrightarrow> distinct l"
    and dj: "\<And>g g' l l'. g \<noteq> g' \<Longrightarrow> map_of d g = Some l \<Longrightarrow> map_of d g' = Some l'
               \<Longrightarrow> set l \<inter> set l' = {}"
    unfolding exclusive_def by blast+
  have m: "map_of ?d2 g =
     (if g = grp then Some ?m else map_option (filter (\<lambda>i. i \<notin> set new_index)) (map_of d g))" for g
    unfolding d1_def by (rule iteration_map_of[OF dist grp])
  have k: "distinct (map fst ?d2)"
    unfolding d1_def using iteration_keys[OF grp, of idx new_index] dist by simp
  have dm: "distinct ?m" using dl[OF grp] by simp
  have d2l: "distinct l" if "map_of ?d2 g = Some l" for g l
    using that dm dl unfolding m by (auto split: if_splits)
  have grp_other: "set ?m \<inter> set l = {}" if "g \<noteq> grp" "map_of ?d2 g = Some l" for g l
  proof -
    from that obtain l0 where l0: "map_of d g = Some l0" "l = filter (\<lambda>i. i \<notin> set new_index) l0"
      unfolding m by auto
    from dj[OF that(1) l0(1) grp] have "set l0 \<inter> set members = {}" .
    with l0(2) idx show ?thesis by auto
  qed
  have d2j: "set l \<inter> set l' = {}"
    if "g \<noteq> g'" "map_of ?d2 g = Some l" "map_of ?d2 g' = Some l'" for g g' l l'
  proof (cases "g = grp")
    case True
    with that have "g' \<noteq> grp" "l = ?m" unfolding m by auto
    with grp_other[OF this(1) that(3)] show ?thesis by simp
  next
    case False
    show ?thesis
    proof (cases "g' = grp")
      case True
      with that have "l' = ?m" unfolding m by auto
      with grp_other[OF False that(2)] show ?thesis by auto
    next
      case g': False
      from that False g' obtain l0 l0' where
        "map_of d g = Some l0" "l = filter (\<lambda>i. i \<notin> set new_index) l0"
        "map_of d g' = Some l0'" "l' = filter (\<lambda>i. i \<notin> set new_index) l0'"
        unfolding m by auto
      with dj[OF that(1), of l0 l0'] show ?thesis by auto
    qed
  qed
  show ?thesis
    unfolding exclusive_def using k d2l d2j by blast
qed

lemma add_group_loop_exclusive:
  "exclusive d \<Longrightarrow> set rest \<subseteq> set new_index \<Longrightarrow>
   exclusive (fst (add_group_loop rest grp new_index d))"
proof (induction rest arbitrary: d)
  case Nil
  then show ?case by simp
next
  case (Cons idx rest)
  show ?case
  proof (cases "map_of d grp")
    case None
    with Cons.prems show ?thesis by simp
  next
    case (Some members)
    from Cons.prems(2) have idx: "idx \<in> set new_index" and rest: "set rest \<subseteq> set new_index"
      by auto
    have "exclusive (remove_from_others
        (if idx \<notin> set members then AList.update grp (members @ [idx]) d else d) grp new_index
        (if idx \<notin> set members then AList.update grp (members @ [idx]) d else d))"
      by (rule iteration_exclusive[OF Cons.prems(1) Some idx])
    from Cons.IH[OF this rest] Some show ?thesis by (simp add: Let_def)
  qed
qed

lemma add_action_exclusive:
  "exclusive (group_data self) \<Longrightarrow> exclusive (group_data (add_action self a))"
  by (simp add: add_action_def add_group_def Let_def add_group_loop_exclusive)

lemma add_action_keys: "map fst (group_data (add_action self a)) = map fst (group_data self)"
  by (simp add: add_action_def add_group_def Let_def add_group_loop_keys)

lemma run_actions_exclusive:
  "exclusive (group_data self) \<Longrightarrow> exclusive (group_data (run_actions self acts))"
  unfolding run_actions_def
  by (induction acts arbitrary: self) (simp_all add: add_action_exclusive)

lemma run_actions_keys: "map fst (group_data (run_actions self acts)) = map fst (group_data self)"
  unfolding run_actions_def
  by (induction acts arbitrary: self) (simp_all add: add_action_keys)

lemma fold_init_map_of:
  "map_of (fold (\<lambda>g d. AList.update g [] d) groups d0) g =
     (if g \<in> set groups then Some [] else map_of d0 g)"
  by (induction groups arbitrary: d0) (auto simp: update_conv')

lemma fold_init_distinct:
  "distinct (map fst d0) \<Longrightarrow> distinct (map fst (fold (\<lambda>g d. AList.update g ([]::int list) d) groups d0))"
  by (induction groups arbitrary: d0) (simp_all add: distinct_update)

lemma fold_init_keys:
  "fst ` set (fold (\<lambda>g d. AList.update g ([]::int list) d) groups d0) = set groups \<union> fst ` set d0"
  by (induction groups arbitrary: d0) (auto simp: dom_update)

lemma init_group_data_exclusive: "exclusive (init_group_data groups)"
  unfolding exclusive_def init_group_data_def
  using fold_init_distinct[of "[]" groups]
  by (auto simp: fold_init_map_of split: if_splits)

lemma init_group_data_keys: "set (map fst (init_group_data groups)) = set groups"
  unfolding init_group_data_def using fold_init_keys[of groups "[]"] by simp

lemma init_Inr:
  "PointWidgetAnnotator_init groups = Inr s0 \<Longrightarrow> group_data s0 = init_group_data groups"
  by (auto simp: PointWidgetAnnotator_init_def split: list.splits)

text \<open>
  Claim C1. An annotator is constructed with any group list and then sees any sequence of
  add actions, each with its own selection and active group (an active group that is not
  a key raises KeyError and changes nothing). In the resulting \<^verbatim>\<open>_group_data\<close> no
  membership list holds an index twice, and an index that is in the lists of \<open>g\<close> and
  \<open>g'\<close> forces \<open>g = g'\<close>. Every prefix of the sequence is such a sequence, so this
  holds after each action.
\<close>

theorem group_membership_exclusive:
  assumes "PointWidgetAnnotator_init groups = Inr s0"
  shows "(\<forall>g l. members_of (group_data (run_actions s0 acts)) g = Some l \<longrightarrow> distinct l) \<and>
         (\<forall>g g' l l' i.
             members_of (group_data (run_actions s0 acts)) g = Some l \<and>
             members_of (group_data (run_actions s0 acts)) g' = Some l' \<and>
             i \<in> set l \<and> i \<in> set l' \<longrightarrow> g = g')"
proof -
  have "exclusive (group_data s0)"
    using init_Inr[OF assms] init_group_data_exclusive by simp
  then have "exclusive (group_data (run_actions s0 acts))"
    by (rule run_actions_exclusive)
  then show ?thesis
    unfolding exclusive_def members_of_def by blast
qed

text \<open>
  The hypothesis of C1 at \<^verbatim>\<open>groups = ['A', 'B']\<close>, with \<^verbatim>\<open>[2, 5]\<close> added to A and then
  \<^verbatim>\<open>[5, 7]\<close> to B.
\<close>

theorem group_membership_exclusive_witness:
  "PointWidgetAnnotator_init [''A'', ''B''] =
     Inr \<lparr>group = ''A'', point_sel_index = [], group_data = [(''A'', []), (''B'', [])]\<rparr> \<and>
   members_of (group_data (run_actions
      \<lparr>group = ''A'', point_sel_index = [], group_data = [(''A'', []), (''B'', [])]\<rparr>
      [([2, 5], ''A''), ([5, 7], ''B'')])) ''A'' = Some [2] \<and>
   members_of (group_data (run_actions
      \<lparr>group = ''A'', point_sel_index = [], group_data = [(''A'', []), (''B'', [])]\<rparr>
      [([2, 5], ''A''), ([5, 7], ''B'')])) ''B'' = Some [5, 7] \<and>
   distinct [5, 7 :: int]"
  using group_membership_exclusive[of "[''A'', ''B'']"
      "\<lparr>group = ''A'', point_sel_index = [], group_data = [(''A'', []), (''B'', [])]\<rparr>"
      "[([2, 5], ''A''), ([5, 7], ''B'')]"]
  by (simp add: PointWidgetAnnotator_init_def init_group_data_def run_actions_def
      add_action_def add_group_def members_of_def Let_def)

text \<open>
  Claim C3. After any history, an add action with \<open>i\<close> selected and group \<open>A\<close> active
  followed by one with \<open>i\<close> selected and group \<open>B\<close> active leaves \<open>i\<close> in the list of
  \<open>B\<close> and in the list of no other group; \<open>A\<close> and \<open>B\<close> are two different labels given
  at construction.
\<close>

theorem reassign_moves_index:
  assumes init: "PointWidgetAnnotator_init groups = Inr s0"
    and A: "A \<in> set groups" and B: "B \<in> set groups" and AB: "A \<noteq> B"
    and i1: "i \<in> set sel1" and i2: "i \<in> set sel2"
  shows "(\<exists>l. members_of (group_data
              (add_action (add_action (run_actions s0 acts) (sel1, A)) (sel2, B))) B = Some l \<and>
              i \<in> set l) \<and>
         (\<forall>g l. g \<noteq> B \<and> members_of (group_data
              (add_action (add_action (run_actions s0 acts) (sel1, A)) (sel2, B))) g = Some l
              \<longrightarrow> i \<notin> set l)"
proof -
  let ?s1 = "add_action (run_actions s0 acts) (sel1, A)"
  let ?d1 = "group_data ?s1"
  have keys: "map fst ?d1 = map fst (init_group_data groups)"
    using init_Inr[OF init] by (simp add: add_action_keys run_actions_keys)
  have "distinct (map fst (init_group_data groups))"
    using init_group_data_exclusive[of groups] by (simp add: exclusive_def)
  with keys have dist: "distinct (map fst ?d1)" by simp
  have "B \<in> fst ` set ?d1"
    using keys B init_group_data_keys[of groups] by (metis set_map)
  then obtain m where m: "map_of ?d1 B = Some m"
    by (metis domD dom_map_of_conv_image_fst)
  from add_group_loop_effect[OF dist m, of sel2 sel2] obtain l where
    l: "map_of (fst (add_group_loop sel2 B sel2 ?d1)) B = Some l"
       "set l = set m \<union> set sel2"
       "\<forall>g. g \<noteq> B \<longrightarrow> map_of (fst (add_group_loop sel2 B sel2 ?d1)) g =
            (if sel2 = [] then map_of ?d1 g
             else map_option (filter (\<lambda>i. i \<notin> set sel2)) (map_of ?d1 g))"
    by blast
  have d2: "group_data (add_action ?s1 (sel2, B)) = fst (add_group_loop sel2 B sel2 ?d1)"
    by (simp add: add_action_def add_group_def Let_def)
  from i2 have ne: "sel2 \<noteq> []" by auto
  have "i \<in> set l" using l(2) i2 by simp
  moreover have "i \<notin> set l'"
    if "g \<noteq> B" "map_of (fst (add_group_loop sel2 B sel2 ?d1)) g = Some l'" for g l'
    using l(3) that ne i2 by auto
  ultimately show ?thesis
    unfolding d2 members_of_def using l(1) by blast
qed

text \<open>
  The hypotheses of C3 at \<^verbatim>\<open>groups = ['A', 'B']\<close> and index 3.
\<close>

theorem reassign_moves_index_witness:
  "PointWidgetAnnotator_init [''A'', ''B''] =
     Inr \<lparr>group = ''A'', point_sel_index = [], group_data = [(''A'', []), (''B'', [])]\<rparr> \<and>
   ''A'' \<in> set [''A'', ''B''] \<and> ''B'' \<in> set [''A'', ''B''] \<and> ''A'' \<noteq> ''B'' \<and>
   (3::int) \<in> set [3] \<and> (3::int) \<in> set [3, 4] \<and>
   members_of (group_data (add_action (add_action (run_actions
      \<lparr>group = ''A'', point_sel_index = [], group_data = [(''A'', []), (''B'', [])]\<rparr> [])
      ([3], ''A'')) ([3, 4], ''B''))) ''B'' = Some [3, 4] \<and>
   members_of (group_data (add_action (add_action (run_actions
      \<lparr>group = ''A'', point_sel_index = [], group_data = [(''A'', []), (''B'', [])]\<rparr> [])
      ([3], ''A'')) ([3, 4], ''B''))) ''A'' = Some []"
  using reassign_moves_index[of "[''A'', ''B'']"
      "\<lparr>group = ''A'', point_sel_index = [], group_data = [(''A'', []), (''B'', [])]\<rparr>"
      "''A''" "''B''" 3 "[3]" "[3, 4]" "[]"]
  by (simp add: PointWidgetAnnotator_init_def init_group_data_def run_actions_def
      add_action_def add_group_def members_of_def Let_def)

text \<open>
  Claim C4. \<^verbatim>\<open>PointWidgetAnnotator(groups=['A', 'B'])\<close> has active group A and two empty
  membership lists; with \<^verbatim>\<open>[2, 5]\<close> selected and A active, \<^verbatim>\<open>add_group\<close> raises nothing
  and leaves \<^verbatim>\<open>{'A': [2, 5], 'B': []}\<close>.
\<close>

theorem add_group_example:
  "PointWidgetAnnotator_init [''A'', ''B''] =
     Inr \<lparr>group = ''A'', point_sel_index = [], group_data = [(''A'', []), (''B'', [])]\<rparr> \<and>
   add_group \<lparr>group = ''A'', point_sel_index = [2, 5], group_data = [(''A'', []), (''B'', [])]\<rparr> =
     (\<lparr>group = ''A'', point_sel_index = [2, 5], group_data = [(''A'', [2, 5]), (''B'', [])]\<rparr>, None)"
  by (simp add: PointWidgetAnnotator_init_def init_group_data_def add_group_def Let_def)

text \<open>
  Claim C8. With an empty selection \<^verbatim>\<open>add_group\<close> raises nothing and changes nothing,
  whatever the dict and the active group are.
\<close>

theorem add_group_empty_selection:
  "add_group (self\<lparr>point_sel_index := []\<rparr>) = (self\<lparr>point_sel_index := []\<rparr>, None) \<and>
   group_data (fst (add_group (self\<lparr>point_sel_index := []\<rparr>))) = group_data self"
  by (simp add: add_group_def Let_def)

text \<open>
  Claim C10. After any sequence of add actions the keys of \<^verbatim>\<open>_group_data\<close> are the
  labels given at construction.
\<close>

theorem group_labels_fixed:
  assumes "PointWidgetAnnotator_init groups = Inr s0"
  shows "set (map fst (group_data (run_actions s0 acts))) = set groups"
proof -
  have "map fst (group_data (run_actions s0 acts)) = map fst (init_group_data groups)"
    using init_Inr[OF assms] by (simp add: run_actions_keys)
  then show ?thesis
    using init_group_data_keys[of groups] by simp
qed

text \<open>
  The hypothesis of C10 at \<^verbatim>\<open>groups = ['A', 'B']\<close>; the second action names a group
  that is not a key.
\<close>

theorem group_labels_fixed_witness:
  "PointWidgetAnnotator_init [''A'', ''B''] =
     Inr \<lparr>group = ''A'', point_sel_index = [], group_data = [(''A'', []), (''B'', [])]\<rparr> \<and>
   set (map fst (group_data (run_actions
      \<lparr>group = ''A'', point_sel_index = [], group_data = [(''A'', []), (''B'', [])]\<rparr>
      [([1], ''B''), ([1, 2], ''C'')]))) = set [''A'', ''B'']"
  using group_labels_fixed[of "[''A'', ''B'']"
      "\<lparr>group = ''A'', point_sel_index = [], group_data = [(''A'', []), (''B'', [])]\<rparr>"
      "[([1], ''B''), ([1, 2], ''C'')]"]
  by (simp add: PointWidgetAnnotator_init_def init_group_data_def)

subsection \<open>Geometry adapter\<close>

lemma rows_loop_map: "rows_loop geoms columns rows = rows @ map (row_dict columns) geoms"
  by (induction geoms arbitrary: rows) simp_all

lemma fold_blank_map_of:
  "map_of (fold (\<lambda>c d. AList.update c v d) columns d0) k =
     (if k \<in> set columns then Some v else map_of d0 k)"
  by (induction columns arbitrary: d0) (auto simp: update_conv')

lemma row_dict_map_of:
  "map_of (row_dict columns g) c =
     (if c = ''geometry'' then Some (Geom g)
      else if c \<in> set columns then Some (Str '''') else None)"
  by (simp add: row_dict_def update_conv' fold_blank_map_of)

lemma row_dict_cells:
  assumes "''geometry'' \<notin> set columns"
  shows "map (map_of (row_dict columns g)) (columns @ [''geometry'']) =
         map (\<lambda>c. Some (Str '''')) columns @ [Some (Geom g)]"
proof -
  have "map (map_of (row_dict columns g)) columns = map (\<lambda>c. Some (Str '''')) columns"
    using assms by (intro map_cong refl) (auto simp: row_dict_map_of)
  then show ?thesis by (simp add: row_dict_map_of)
qed

text \<open>
  Claim C5, amended. For every sequence of geometries and every list of attribute column
  names that does not hold the name \<^verbatim>\<open>geometry\<close>, the adapter returns a table: it has the
  given names followed by \<^verbatim>\<open>geometry\<close> as its columns and one row per geometry, in order;
  each row holds the empty string in every attribute column and the geometry in the last
  column; without geometries the table has the same columns and no row.
\<close>

theorem poly_to_geopandas_table:
  fixes geoms :: "'geo list"
  assumes "''geometry'' \<notin> set columns"
  shows "poly_to_geopandas geoms columns =
           Inr \<lparr>gdf_columns = columns @ [''geometry''],
                gdf_data = map (\<lambda>g. map (\<lambda>c. Some (Str '''')) columns @ [Some (Geom g)]) geoms\<rparr> \<and>
         length (map (\<lambda>g. map (\<lambda>c. Some (Str '''')) columns @ [Some (Geom g)]) geoms) =
           length geoms \<and>
         poly_to_geopandas ([] :: 'geo list) columns =
           Inr \<lparr>gdf_columns = columns @ [''geometry''], gdf_data = []\<rparr>"
  using assms
  by (simp add: poly_to_geopandas_def GeoDataFrame_of_def rows_loop_map
      row_dict_cells[OF assms] count_list_0_iff del: map_append)

text \<open>
  The hypothesis of the amended C5 at \<^verbatim>\<open>columns = ['Group', 'Kind']\<close> and two
  geometries.
\<close>

theorem poly_to_geopandas_table_witness:
  "''geometry'' \<notin> set [''Group'', ''Kind''] \<and>
   poly_to_geopandas [7::nat, 9] [''Group'', ''Kind''] =
     Inr \<lparr>gdf_columns = [''Group'', ''Kind'', ''geometry''],
          gdf_data = [[Some (Str ''''), Some (Str ''''), Some (Geom 7)],
                      [Some (Str ''''), Some (Str ''''), Some (Geom 9)]]\<rparr>"
  using poly_to_geopandas_table[of "[''Group'', ''Kind'']" "[7::nat, 9]"]
  by (simp add: poly_to_geopandas_def GeoDataFrame_of_def row_dict_def)

text \<open>
  Claim C5 as stated fails for \<^verbatim>\<open>columns = ['geometry']\<close>: the table would have two
  columns named \<^verbatim>\<open>geometry\<close>, the constructor raises, and the adapter returns no table.
\<close>

theorem poly_to_geopandas_reserved_name_raises:
  "isl (poly_to_geopandas [7::nat] [''geometry''])"
  by (simp add: poly_to_geopandas_def GeoDataFrame_of_def)

subsection \<open>Pretty-printer\<close>

lemma update_fresh: "k \<notin> fst ` set d \<Longrightarrow> AList.update k v d = d @ [(k, v)]"
  by (induction d) auto

lemma fold_update_distinct:
  "distinct (map fst (d0 @ pv)) \<Longrightarrow>
   fold (\<lambda>kv d. AList.update (fst kv) (snd kv) d) pv d0 = d0 @ pv"
proof (induction pv arbitrary: d0)
  case Nil
  then show ?case by simp
next
  case (Cons kv pv)
  from Cons.prems have fresh: "fst kv \<notin> fst ` set d0" by auto
  have "AList.update (fst kv) (snd kv) d0 = d0 @ [kv]"
    using update_fresh[OF fresh, of "snd kv"] by simp
  moreover have "distinct (map fst ((d0 @ [kv]) @ pv))" using Cons.prems by simp
  ultimately show ?case using Cons.IH[of "d0 @ [kv]"] by simp
qed

lemma fold_append_lines:
  "fold (\<lambda>item s. s @ f item) items h = h @ concat (map f items)"
  by (induction items arbitrary: h) simp_all

lemma distinct_keys_sort_key:
  "distinct (map fst xs) \<Longrightarrow> distinct (map fst (sort_key fst xs))"
  by (metis distinct_map distinct_sort set_sort)

text \<open>
  Claim C9. The parameter values have distinct names, one of them \<^verbatim>\<open>name\<close> with value
  \<open>n\<close>. The printed string is the name, a line of dashes, an empty line and then one
  line \<^verbatim>\<open>  key: value\<close> for each item of a list that is sorted by key, has no key twice
  and holds exactly the parameter values other than the name.
\<close>

theorem pprint_lists_parameters:
  assumes dist: "distinct (map fst param_values)"
    and name: "(''name'', n) \<in> set param_values"
  shows "\<exists>items.
           pprint str param_values =
             Inr (str n @ newline @ replicate (length (str n)) (CHR ''-'') @ newline @ newline
                  @ concat (map (param_line str) items)) \<and>
           sorted (map fst items) \<and> distinct (map fst items) \<and>
           set items = {kv \<in> set param_values. fst kv \<noteq> ''name''}"
proof -
  let ?items = "sort_key fst (AList.delete ''name'' param_values)"
  have d: "fold (\<lambda>kv d. AList.update (fst kv) (snd kv) d) param_values [] = param_values"
    using fold_update_distinct[of "[]" param_values] dist by simp
  have m: "map_of param_values ''name'' = Some n"
    using dist name by simp
  have "pprint str param_values =
      Inr (str n @ newline @ replicate (length (str n)) (CHR ''-'') @ newline @ newline
           @ concat (map (param_line str) ?items))"
    by (simp add: pprint_def d m Let_def fold_append_lines)
  moreover have "sorted (map fst ?items)" by simp
  moreover have "distinct (map fst ?items)"
    using dist by (intro distinct_keys_sort_key) (simp add: distinct_delete)
  moreover have "set ?items = {kv \<in> set param_values. fst kv \<noteq> ''name''}"
    by (auto simp: AList.delete_eq)
  ultimately show ?thesis by blast
qed

text \<open>
  The hypotheses of C9 at the parameters width, name and height.
\<close>

theorem pprint_lists_parameters_witness:
  "distinct (map fst [(''width'', ''900''), (''name'', ''Geo01''), (''height'', ''500'')]) \<and>
   (''name'', ''Geo01'') \<in> set [(''width'', ''900''), (''name'', ''Geo01''), (''height'', ''500'')] \<and>
   pprint id [(''width'', ''900''), (''name'', ''Geo01''), (''height'', ''500'')] =
     Inr (''Geo01'' @ newline @ ''-----'' @ newline @ newline @
          ''  height: 500'' @ newline @ ''  width: 900'' @ newline)"
  using pprint_lists_parameters[of "[(''width'', ''900''), (''name'', ''Geo01''), (''height'', ''500'')]"
      "''Geo01''" id]
  by (simp add: pprint_def param_line_def Let_def less_eq_char_def less_char_def
      list_le_def)

subsection \<open>Polygon table\<close>

lemma set_update_fresh: "k \<notin> fst ` set d \<Longrightarrow> set (AList.update k v d) = insert (k, v) (set d)"
  by (simp add: update_fresh)

lemma fold_dict_values:
  assumes "\<forall>kv \<in> set d0. snd kv = f (fst kv)"
  shows "set (fold (\<lambda>c d. AList.update c (f c) d) cols d0) = set d0 \<union> (\<lambda>c. (c, f c)) ` set cols"
  using assms
proof (induction cols arbitrary: d0)
  case Nil
  then show ?case by simp
next
  case (Cons c cols)
  show ?case
  proof (cases "c \<in> fst ` set d0")
    case True
    then obtain v where v: "(c, v) \<in> set d0" by force
    with Cons.prems have "v = f c" by force
    with v have in0: "(c, f c) \<in> set d0" by simp
    obtain w where w: "map_of d0 c = Some w"
      using True by (metis domD dom_map_of_conv_image_fst)
    from map_of_SomeD[OF w] Cons.prems have "w = f c" by force
    with w have "AList.update c (f c) d0 = d0" by (simp add: update_triv)
    with Cons.IH[OF Cons.prems] in0 show ?thesis by auto
  next
    case False
    have s: "set (AList.update c (f c) d0) = insert (c, f c) (set d0)"
      by (rule set_update_fresh[OF False])
    then have "\<forall>kv \<in> set (AList.update c (f c) d0). snd kv = f (fst kv)"
      using Cons.prems by auto
    from Cons.IH[OF this] s show ?thesis by auto
  qed
qed

lemma poly_data_lengths:
  "set (map (\<lambda>item. length (snd item))
        (fold (\<lambda>c d. AList.update c (f c) d) cols [])) = (\<lambda>c. length (f c)) ` set cols"
proof -
  have "set (fold (\<lambda>c d. AList.update c (f c) d) cols []) = (\<lambda>c. (c, f c)) ` set cols"
    using fold_dict_values[of "[]" f cols] by simp
  then show ?thesis by (simp add: image_image)
qed

lemma card_image_not_1:
  assumes "cols \<noteq> []"
  shows "card (g ` set cols) \<noteq> 1 \<longleftrightarrow> (\<exists>c \<in> set cols. \<exists>c' \<in> set cols. g c \<noteq> g c')"
proof
  assume ne: "card (g ` set cols) \<noteq> 1"
  show "\<exists>c \<in> set cols. \<exists>c' \<in> set cols. g c \<noteq> g c'"
  proof (rule ccontr)
    assume "\<not> ?thesis"
    then have all: "\<And>c c'. c \<in> set cols \<Longrightarrow> c' \<in> set cols \<Longrightarrow> g c = g c'" by blast
    from assms obtain c0 where c0: "c0 \<in> set cols" by (cases cols) auto
    have "g ` set cols = {g c0}" using all c0 by blast
    then have "card (g ` set cols) = 1" by simp
    with ne show False by simp
  qed
next
  assume "\<exists>c \<in> set cols. \<exists>c' \<in> set cols. g c \<noteq> g c'"
  then obtain c c' where cc: "c \<in> set cols" "c' \<in> set cols" "g c \<noteq> g c'" by blast
  show "card (g ` set cols) \<noteq> 1"
  proof
    assume "card (g ` set cols) = 1"
    then obtain x where x: "g ` set cols = {x}" by (metis card_1_singletonE)
    from cc(1) x have "g c = x" by blast
    moreover from cc(2) x have "g c' = x" by blast
    ultimately show False using cc(3) by simp
  qed
qed

lemma raises_iff:
  "PolyAnnotator_init poly_columns vertex_columns polys0 = Inl ValueError \<longleftrightarrow>
   card ((\<lambda>c. length (dimension_values_unexpanded (add_poly_columns poly_columns polys0) c))
         ` set poly_columns) \<noteq> 1"
proof -
  let ?f = "dimension_values_unexpanded (add_poly_columns poly_columns polys0)"
  let ?pd = "fold (\<lambda>c d. AList.update c (?f c) d) poly_columns []"
  have L: "length (remdups (map (\<lambda>item. length (snd item)) ?pd)) =
           card ((\<lambda>c. length (?f c)) ` set poly_columns)"
    by (simp only: length_remdups_card_conv poly_data_lengths)
  have "PolyAnnotator_init poly_columns vertex_columns polys0 = Inl ValueError \<longleftrightarrow>
        length (remdups (map (\<lambda>item. length (snd item)) ?pd)) \<noteq> 1"
    unfolding PolyAnnotator_init_def Let_def by (simp only: if_split sum.simps simp_thms split: if_splits)
  then show ?thesis unfolding L .
qed

lemma length_unique_array: "length (unique_array xs) = card (set xs)"
  by (simp add: unique_array_def length_remdups_card_conv)

lemma constant_shape_length:
  assumes "\<not> varies_within c shape"
  shows "length (unique_array (map (\<lambda>r. row_value r c) shape)) = (if shape = [] then 0 else 1)"
proof (cases shape)
  case Nil
  then show ?thesis by (simp add: unique_array_def)
next
  case (Cons r rs)
  let ?vs = "map (\<lambda>r. row_value r c) shape"
  have "card (set ?vs) \<le> 1"
    using assms by (simp add: varies_within_def length_unique_array not_less)
  moreover have "0 < card (set ?vs)"
    using Cons by (simp add: card_gt_0_iff)
  ultimately have "card (set ?vs) = 1" by simp
  with Cons show ?thesis by (simp only: length_unique_array) simp
qed

lemma constant_column_length:
  assumes "\<forall>shape \<in> set (data p). \<not> varies_within c shape"
  shows "length (dimension_values_unexpanded p c) =
         sum_list (map (\<lambda>shape. if shape = [] then 0 else 1) (data p))"
proof -
  have "map (\<lambda>shape. length (unique_array (map (\<lambda>r. row_value r c) shape))) (data p) =
        map (\<lambda>shape. if shape = [] then 0 else 1) (data p)"
    using assms by (intro map_cong refl) (simp add: constant_shape_length)
  then have "sum_list (map (\<lambda>shape. length (unique_array (map (\<lambda>r. row_value r c) shape))) (data p)) =
        sum_list (map (\<lambda>shape. if shape = [] then 0 else 1) (data p))"
    by (rule arg_cong)
  then show ?thesis
    by (simp only: dimension_values_unexpanded_def length_concat map_map comp_def)
qed

lemma constant_columns_accepted:
  assumes "poly_columns \<noteq> []"
    and "\<not> some_column_varies poly_columns (add_poly_columns poly_columns polys0)"
  shows "\<not> isl (PolyAnnotator_init poly_columns vertex_columns polys0)"
proof -
  let ?p = "add_poly_columns poly_columns polys0"
  let ?len = "\<lambda>c. length (dimension_values_unexpanded ?p c)"
  have iff: "PolyAnnotator_init poly_columns vertex_columns polys0 = Inl ValueError \<longleftrightarrow>
      (\<exists>c \<in> set poly_columns. \<exists>c' \<in> set poly_columns. ?len c \<noteq> ?len c')"
    unfolding raises_iff by (rule card_image_not_1[OF assms(1)])
  have isl: "isl (PolyAnnotator_init poly_columns vertex_columns polys0) \<longleftrightarrow>
      PolyAnnotator_init poly_columns vertex_columns polys0 = Inl ValueError"
    by (simp add: PolyAnnotator_init_def Let_def)
  from assms(2) have "\<forall>c \<in> set poly_columns. \<forall>shape \<in> set (data ?p). \<not> varies_within c shape"
    by (auto simp: some_column_varies_def list_ex_iff)
  then have "\<forall>c \<in> set poly_columns.
      ?len c = sum_list (map (\<lambda>shape. if shape = [] then 0 else 1) (data ?p))"
    by (simp add: constant_column_length)
  then have "\<not> (\<exists>c \<in> set poly_columns. \<exists>c' \<in> set poly_columns. ?len c \<noteq> ?len c')"
    by simp
  with iff isl show ?thesis by simp
qed

text \<open>
  Claim C2 says that the constructor raises the validation error whenever a configured
  per-shape column has more than one distinct value among the vertices of some shape. For
  \<^verbatim>\<open>poly_columns = ['Group']\<close> and one shape whose two vertices have the Group values a
  and b the column varies within the shape, and the code raises nothing: a single column
  has a single length. It builds a per-shape table of two rows for the one shape.
\<close>

theorem varying_single_column_accepted:
  "some_column_varies [''Group''] (add_poly_columns [''Group'']
     \<lparr>kdims = [''Longitude'', ''Latitude''], vdims = [''Group''],
      data = [[[(''Longitude'', IntV 0), (''Latitude'', IntV 0), (''Group'', StrV ''a'')],
               [(''Longitude'', IntV 1), (''Latitude'', IntV 0), (''Group'', StrV ''b'')]]]\<rparr>) \<and>
   PolyAnnotator_init [''Group''] []
     \<lparr>kdims = [''Longitude'', ''Latitude''], vdims = [''Group''],
      data = [[[(''Longitude'', IntV 0), (''Latitude'', IntV 0), (''Group'', StrV ''a'')],
               [(''Longitude'', IntV 1), (''Latitude'', IntV 0), (''Group'', StrV ''b'')]]]\<rparr> =
     Inr \<lparr>polys = \<lparr>kdims = [''Longitude'', ''Latitude''], vdims = [''Group''],
            data = [[[(''Longitude'', IntV 0), (''Latitude'', IntV 0), (''Group'', StrV ''a'')],
                     [(''Longitude'', IntV 1), (''Latitude'', IntV 0), (''Group'', StrV ''b'')]]]\<rparr>,
          poly_table = [(''Group'', [StrV ''a'', StrV ''b''])],
          vertex_table = \<lparr>kdims = [''Longitude'', ''Latitude''], vdims = [], data = []\<rparr>\<rparr>"
  by (simp add: PolyAnnotator_init_def add_poly_columns_def contains_def
      dimension_values_unexpanded_def unique_array_def row_value_def
      some_column_varies_def varies_within_def Let_def)

text \<open>
  Claim C7 says that the constructor succeeds with an empty per-shape column list. The code
  raises the validation error there, whatever the polygons and the per-vertex columns are:
  \<^verbatim>\<open>poly_data\<close> is empty, the set of lengths is empty, and its size 0 is not 1.
\<close>

theorem empty_poly_columns_raise:
  "PolyAnnotator_init [] vertex_columns polys0 = Inl ValueError"
  by (simp add: PolyAnnotator_init_def Let_def)

subsection \<open>Point table\<close>









end
